theory Spec2Isabelle
  imports Main
begin

section \<open>Node identity on AWS: \<^verbatim>\<open>pkg/nodeidentity/aws/identify.go\<close>\<close>

subsection \<open>The string functions the code calls\<close>

text \<open>
  Go strings are byte sequences; \<^typ>\<open>string\<close> is a list of bytes.
  \<^verbatim>\<open>strings.HasPrefix\<close> and \<^verbatim>\<open>strings.TrimPrefix\<close> are as in Go's library.
  \<^verbatim>\<open>strings.Split\<close> is only ever called with the one-byte separator \<^verbatim>\<open>"/"\<close>, so the
  separator is a single character here: the result has one more element than the input
  has separators, and the empty string splits into one empty token.
  \<^verbatim>\<open>aws.StringValue\<close> reads a \<^verbatim>\<open>*string\<close>, giving the empty string for nil.
\<close>

definition HasPrefix :: "string \<Rightarrow> string \<Rightarrow> bool" where
  "HasPrefix s pre = (take (length pre) s = pre)"

definition TrimPrefix :: "string \<Rightarrow> string \<Rightarrow> string" where
  "TrimPrefix s pre = (if HasPrefix s pre then drop (length pre) s else s)"

fun Split :: "string \<Rightarrow> char \<Rightarrow> string list" where
  "Split [] sep = [[]]"
| "Split (c # cs) sep =
     (if c = sep then [] # Split cs sep
      else (c # hd (Split cs sep)) # tl (Split cs sep))"

definition StringValue :: "string option \<Rightarrow> string" where
  "StringValue p = (case p of None \<Rightarrow> [] | Some s \<Rightarrow> s)"

subsection \<open>Constants\<close>

definition ClusterAutoscalerNodeTemplateLabel :: string where
  "ClusterAutoscalerNodeTemplateLabel = ''k8s.io/cluster-autoscaler/node-template/label/''"

definition InstanceStateNameRunning :: string where
  "InstanceStateNameRunning = ''running''"

text \<open>Durations are nanosecond counts, as \<^verbatim>\<open>time.Duration\<close> is.\<close>

type_synonym time = int

definition Minute :: time where
  "Minute = 60 * 1000000000"

definition cacheTTL :: time where
  "cacheTTL = 60 * Minute"

subsection \<open>Data\<close>

text \<open>
  A pointer field is an \<^typ>\<open>'a option\<close>, nil being \<^term>\<open>None\<close>; so is an element of a
  slice of pointers. Of the node only its name and \<^verbatim>\<open>Spec.ProviderID\<close> are read.
\<close>

record Node =
  NodeName :: string
  ProviderID :: string

record Info =
  InstanceID :: string
  Labels :: "string \<rightharpoonup> string"

record InstanceState =
  Name :: "string option"

record Tag =
  Key :: "string option"
  Value :: "string option"

record Instance =
  State :: "InstanceState option"
  InstanceLifecycle :: "string option"
  Tags :: "Tag option list"

record Reservation =
  Instances :: "Instance option list"

record DescribeInstancesOutput =
  Reservations :: "Reservation option list"

text \<open>
  Every \<^verbatim>\<open>return nil, fmt.Errorf(...)\<close> of the code is one constructor, carrying the
  values the message is formatted from. A run-time panic (a nil dereference, a failed
  type assertion) is the value \<open>Panic\<close>.
\<close>

datatype error =
    ProviderIDNotSet string
  | ProviderIDNotRecognized string string
  | DescribeInstancesError string
  | MissingInstanceID string
  | MultipleInstances string
  | InstanceNotRunning string string
  | Panic

datatype warning = CacheLookupFailure string | CacheAddFailure string

text \<open>What a call does to its collaborators, in order.\<close>

datatype event =
    CacheGetByKey string
  | CacheAdd Info
  | DescribeInstances "string list"
  | Warningf warning

text \<open>
  The two interfaces the identifier is written against. \<^verbatim>\<open>ec2iface.EC2API\<close> is used
  through \<^verbatim>\<open>DescribeInstances\<close> alone, which returns a response pointer and an error.
  \<^verbatim>\<open>expirationcache.Store\<close> is used through \<^verbatim>\<open>GetByKey\<close>, returning
  \<^verbatim>\<open>(item, exists, err)\<close>, and \<^verbatim>\<open>Add\<close>, returning an error; both may change the
  store, whose state has the type \<^typ>\<open>'s\<close>.
\<close>

type_synonym EC2API = "string list \<Rightarrow> DescribeInstancesOutput option \<times> string option"

record 's Store =
  GetByKey :: "'s \<Rightarrow> string \<Rightarrow> (Info option \<times> bool \<times> string option) \<times> 's"
  Add :: "'s \<Rightarrow> Info \<Rightarrow> string option \<times> 's"

record 's nodeIdentifier =
  ec2Client :: EC2API
  cache :: 's
  cacheEnabled :: bool

subsection \<open>\<^verbatim>\<open>getInstance\<close>\<close>

definition getInstance :: "EC2API \<Rightarrow> string \<Rightarrow> error + Instance option" where
  "getInstance client instanceID =
     (case client [instanceID] of
        (_, Some err) \<Rightarrow> Inl (DescribeInstancesError err)
      | (None, None) \<Rightarrow> Inl Panic
      | (Some resp, None) \<Rightarrow>
          (case Reservations resp of
             [] \<Rightarrow> Inl (MissingInstanceID instanceID)
           | None # _ \<Rightarrow> Inl Panic
           | Some r # _ \<Rightarrow>
               if length (Instances r) \<le> 0 then Inl (MissingInstanceID instanceID)
               else if length (Instances r) > 1 then Inl (MultipleInstances instanceID)
               else Inr (hd (Instances r))))"

subsection \<open>\<^verbatim>\<open>IdentifyNode\<close>, step by step\<close>

text \<open>Lines 96 to 110: the provider id is checked and the instance id taken from it.\<close>

definition parseProviderID :: "Node \<Rightarrow> error + string" where
  "parseProviderID node =
     (let providerID = ProviderID node in
      if providerID = [] then Inl (ProviderIDNotSet (NodeName node))
      else if \<not> HasPrefix providerID ''aws://''
        then Inl (ProviderIDNotRecognized providerID (NodeName node))
      else
        let tokens = Split (TrimPrefix providerID ''aws://'') CHR ''/'' in
        if length tokens \<noteq> 3
          then Inl (ProviderIDNotRecognized providerID (NodeName node))
        else Inr (tokens ! 2))"

text \<open>
  Lines 114 to 122: the cache is read only when caching is enabled. A read error is
  logged and nothing more; \<^verbatim>\<open>exists\<close> is tested whatever the error was. The type
  assertion \<^verbatim>\<open>obj.(*nodeidentity.Info)\<close> panics on a nil item. The first component
  is the early return, if there is one.
\<close>

definition cacheLookup ::
  "'s Store \<Rightarrow> 's nodeIdentifier \<Rightarrow> string \<Rightarrow> (error + Info) option \<times> event list \<times> 's" where
  "cacheLookup store i instanceID =
     (if cacheEnabled i then
        (case GetByKey store (cache i) instanceID of
           ((obj, exists, err), c) \<Rightarrow>
             let evs = CacheGetByKey instanceID #
                       (case err of None \<Rightarrow> [] | Some e \<Rightarrow> [Warningf (CacheLookupFailure e)])
             in if exists
                then (Some (case obj of None \<Rightarrow> Inl Panic | Some info \<Rightarrow> Inr info), evs, c)
                else (None, evs, c))
      else (None, [], cache i))"

text \<open>Lines 130 to 133: the state name, \<^verbatim>\<open>"?"\<close> when the instance has no state.\<close>

definition instanceState :: "Instance \<Rightarrow> string" where
  "instanceState instance =
     (case State instance of None \<Rightarrow> ''?'' | Some s \<Rightarrow> StringValue (Name s))"

text \<open>Lines 138 to 141: the label map before the tags are read.\<close>

definition lifecycleLabels :: "Instance \<Rightarrow> (string \<rightharpoonup> string)" where
  "lifecycleLabels instance =
     (case InstanceLifecycle instance of
        None \<Rightarrow> Map.empty
      | Some lifecycle \<Rightarrow>
          [''node-role.kubernetes.io/'' @ lifecycle @ ''-worker'' \<mapsto> ''true''])"

text \<open>Lines 148 to 152: the loop over the tags, in slice order; a nil tag panics.\<close>

fun tagLabels :: "Tag option list \<Rightarrow> (string \<rightharpoonup> string) \<Rightarrow> error + (string \<rightharpoonup> string)" where
  "tagLabels [] labels = Inr labels"
| "tagLabels (None # tags) labels = Inl Panic"
| "tagLabels (Some tag # tags) labels =
     (if HasPrefix (StringValue (Key tag)) ClusterAutoscalerNodeTemplateLabel
      then tagLabels tags
             (labels(TrimPrefix (StringValue (Key tag)) ClusterAutoscalerNodeTemplateLabel
                       \<mapsto> StringValue (Value tag)))
      else tagLabels tags labels)"

definition deriveLabels :: "Instance \<Rightarrow> error + (string \<rightharpoonup> string)" where
  "deriveLabels instance = tagLabels (Tags instance) (lifecycleLabels instance)"

text \<open>Lines 155 to 160: the resolved info is added when caching is enabled; an error is logged.\<close>

definition cacheAdd :: "'s Store \<Rightarrow> bool \<Rightarrow> 's \<Rightarrow> Info \<Rightarrow> event list \<times> 's" where
  "cacheAdd store enabled c info =
     (if enabled then
        (case Add store c info of
           (err, c') \<Rightarrow>
             (CacheAdd info #
              (case err of None \<Rightarrow> [] | Some e \<Rightarrow> [Warningf (CacheAddFailure e)]), c'))
      else ([], c))"

text \<open>
  The whole function: its result, the events of the call in order, and the store after it.
\<close>

definition IdentifyNode ::
  "'s Store \<Rightarrow> 's nodeIdentifier \<Rightarrow> Node \<Rightarrow> (error + Info) \<times> event list \<times> 's" where
  "IdentifyNode store i node =
     (case parseProviderID node of
        Inl e \<Rightarrow> (Inl e, [], cache i)
      | Inr instanceID \<Rightarrow>
          (case cacheLookup store i instanceID of
             (Some r, evs, c) \<Rightarrow> (r, evs, c)
           | (None, evs, c) \<Rightarrow>
               let evs1 = evs @ [DescribeInstances [instanceID]] in
               (case getInstance (ec2Client i) instanceID of
                  Inl e \<Rightarrow> (Inl e, evs1, c)
                | Inr None \<Rightarrow> (Inl Panic, evs1, c)
                | Inr (Some instance) \<Rightarrow>
                    if instanceState instance \<noteq> InstanceStateNameRunning
                    then (Inl (InstanceNotRunning instanceID (instanceState instance)), evs1, c)
                    else
                      (case deriveLabels instance of
                         Inl e \<Rightarrow> (Inl e, evs1, c)
                       | Inr labels \<Rightarrow>
                           let info = \<lparr>InstanceID = instanceID, Labels = labels\<rparr> in
                           (case cacheAdd store (cacheEnabled i) c info of
                              (evs2, c') \<Rightarrow> (Inr info, evs1 @ evs2, c'))))))"

text \<open>The number of cloud calls among the events of a call.\<close>

definition cloudCalls :: "event list \<Rightarrow> nat" where
  "cloudCalls evs = length (filter (\<lambda>e. case e of DescribeInstances _ \<Rightarrow> True | _ \<Rightarrow> False) evs)"

subsection \<open>The cache behind the identifier\<close>

text \<open>\<^verbatim>\<open>stringKeyFunc\<close>: the cache key of an info is its instance id.\<close>

definition stringKeyFunc :: "Info \<Rightarrow> string" where
  "stringKeyFunc obj = InstanceID obj"

text \<open>
  Modelled from the spec: the TTL store that \<^verbatim>\<open>expirationcache.NewTTLStore\<close> builds
  (package \<^verbatim>\<open>k8s.io/client-go/tools/cache\<close>) is not among the sources. The spec's
  IdentityCache is a store of entries \<^verbatim>\<open>{info, insertedAt}\<close>: \<^verbatim>\<open>put\<close> inserts or overwrites
  the entry under the info's key and restarts its expiry at now + TTL; \<^verbatim>\<open>get\<close> reports
  \<^verbatim>\<open>found = false\<close> for a key that is absent or expired, and an entry is expired once its
  age exceeds the TTL. An expired entry is dropped by the read that meets it. The store
  reads the time from its clock, which is a field here, set from outside between calls.
\<close>

record TTLStore =
  items :: "string \<rightharpoonup> Info \<times> time"
  keyFunc :: "Info \<Rightarrow> string"
  ttl :: time
  clock :: time

definition NewTTLStore :: "(Info \<Rightarrow> string) \<Rightarrow> time \<Rightarrow> time \<Rightarrow> TTLStore" where
  "NewTTLStore kf t now = \<lparr>items = Map.empty, keyFunc = kf, ttl = t, clock = now\<rparr>"

definition isExpired :: "TTLStore \<Rightarrow> time \<Rightarrow> bool" where
  "isExpired c insertedAt = (clock c - insertedAt > ttl c)"

definition TTL_GetByKey :: "TTLStore \<Rightarrow> string \<Rightarrow> (Info option \<times> bool \<times> string option) \<times> TTLStore" where
  "TTL_GetByKey c key =
     (case items c key of
        None \<Rightarrow> ((None, False, None), c)
      | Some (info, insertedAt) \<Rightarrow>
          if isExpired c insertedAt
          then ((None, False, None), c\<lparr>items := (items c)(key := None)\<rparr>)
          else ((Some info, True, None), c))"

definition TTL_Add :: "TTLStore \<Rightarrow> Info \<Rightarrow> string option \<times> TTLStore" where
  "TTL_Add c info = (None, c\<lparr>items := (items c)(keyFunc c info \<mapsto> (info, clock c))\<rparr>)"

definition TTLStoreOps :: "TTLStore Store" where
  "TTLStoreOps = \<lparr>GetByKey = TTL_GetByKey, Add = TTL_Add\<rparr>"

text \<open>
  \<^verbatim>\<open>New\<close>, where the session and the region were obtained: the identifier holds the EC2
  client, a fresh TTL store with \<^verbatim>\<open>stringKeyFunc\<close> and \<^verbatim>\<open>cacheTTL\<close>, and the flag.
\<close>

definition New :: "EC2API \<Rightarrow> time \<Rightarrow> bool \<Rightarrow> TTLStore nodeIdentifier" where
  "New client now CacheNodeidentityInfo =
     \<lparr>ec2Client = client,
      cache = NewTTLStore stringKeyFunc cacheTTL now,
      cacheEnabled = CacheNodeidentityInfo\<rparr>"

section \<open>Node bootstrap: \<^verbatim>\<open>download-or-bust\<close> of the launch template's \<^verbatim>\<open>nodeup.sh\<close>\<close>

text \<open>
  The four entries of the \<^verbatim>\<open>commands\<close> array, in its order: \<^verbatim>\<open>curl --compressed\<close>,
  \<^verbatim>\<open>wget --compression=auto\<close>, plain \<^verbatim>\<open>curl\<close>, plain \<^verbatim>\<open>wget\<close>.
\<close>

datatype command = CurlCompressed | WgetCompression | Curl | Wget

definition commands :: "command list" where
  "commands = [CurlCompressed, WgetCompression, Curl, Wget]"

text \<open>
  The host the script runs on: \<^verbatim>\<open>sha256sum\<close> maps the bytes of a file to the hex digest
  it prints, and \<open>run n cmd url old\<close> is the \<open>n\<close>-th download the script starts, by
  \<open>cmd\<close> from \<open>url\<close> with \<open>old\<close> at the destination (\<^term>\<open>None\<close>: no file): its exit
  status (\<^term>\<open>True\<close> for 0) and what is at the destination afterwards.
\<close>

record host =
  sha256sum :: "string \<Rightarrow> string"
  run :: "nat \<Rightarrow> command \<Rightarrow> string \<Rightarrow> string option \<Rightarrow> bool \<times> string option"

text \<open>
  The state of one call: the contents of the destination file, the downloads started so
  far, and the number of 60 second sleeps.
\<close>

record fetch =
  destfile :: "string option"
  attempts :: "(command \<times> string) list"
  sleeps :: nat

text \<open>
  \<^verbatim>\<open>validate-hash\<close>: when \<^verbatim>\<open>sha256sum\<close> fails for want of a file, \<^verbatim>\<open>actual\<close> is empty
  (\<^verbatim>\<open>|| true\<close>), and it is compared with the expected digest all the same.
\<close>

definition validate_hash :: "host \<Rightarrow> string option \<Rightarrow> string \<Rightarrow> bool" where
  "validate_hash h f expected =
     (let actual = (case f of None \<Rightarrow> [] | Some bytes \<Rightarrow> sha256sum h bytes)
      in \<not> (actual \<noteq> expected))"

text \<open>The body of the loop over the commands, lines 65 to 76.\<close>

datatype outcome = DownloadFailed | HashMismatch | Downloaded

definition attempt :: "host \<Rightarrow> string \<Rightarrow> string \<Rightarrow> command \<Rightarrow> fetch \<Rightarrow> outcome \<times> fetch" where
  "attempt h hash url cmd s =
     (case run h (length (attempts s)) cmd url (destfile s) of
        (ok, f) \<Rightarrow>
          let s1 = s\<lparr>destfile := f, attempts := attempts s @ [(cmd, url)]\<rparr> in
          if \<not> ok then (DownloadFailed, s1)
          else if \<not> validate_hash h (destfile s1) hash then (HashMismatch, s1\<lparr>destfile := None\<rparr>)
          else (Downloaded, s1))"

text \<open>The two \<^verbatim>\<open>for\<close> loops; \<^term>\<open>True\<close> says that the function returned.\<close>

fun try_commands :: "host \<Rightarrow> string \<Rightarrow> string \<Rightarrow> command list \<Rightarrow> fetch \<Rightarrow> bool \<times> fetch" where
  "try_commands h hash url [] s = (False, s)"
| "try_commands h hash url (cmd # cmds) s =
     (case attempt h hash url cmd s of
        (Downloaded, s') \<Rightarrow> (True, s')
      | (_, s') \<Rightarrow> try_commands h hash url cmds s')"

fun try_urls :: "host \<Rightarrow> string \<Rightarrow> string list \<Rightarrow> fetch \<Rightarrow> bool \<times> fetch" where
  "try_urls h hash [] s = (False, s)"
| "try_urls h hash (url # urls) s =
     (case try_commands h hash url commands s of
        (True, s') \<Rightarrow> (True, s')
      | (False, s') \<Rightarrow> try_urls h hash urls s')"

text \<open>\<^verbatim>\<open>while true\<close>: a pass over the urls, then a sleep; it need not return.\<close>

partial_function (option) retry :: "host \<Rightarrow> string \<Rightarrow> string list \<Rightarrow> fetch \<Rightarrow> fetch option" where
  "retry h hash urls s =
     (case try_urls h hash urls s of
        (returned, s') \<Rightarrow>
          if returned then Some s'
          else retry h hash urls (s'\<lparr>sleeps := sleeps s' + 1\<rparr>))"

text \<open>
  \<^verbatim>\<open>download-or-bust\<close>, with the comma-separated urls already split into a list. The
  result is the exit status of the function and the state it leaves. The \<^verbatim>\<open>return\<close> of
  line 75 follows an \<^verbatim>\<open>echo\<close> and passes on its status 0. The bare \<^verbatim>\<open>return\<close> of line 52
  passes on the status of the last command run before it, which is the condition
  \<^verbatim>\<open>! validate-hash\<close> of the \<^verbatim>\<open>if\<close>: \<^verbatim>\<open>validate-hash\<close> succeeded, so the negation has
  status 1.
\<close>

definition download_or_bust ::
  "host \<Rightarrow> string \<Rightarrow> string list \<Rightarrow> fetch \<Rightarrow> (nat \<times> fetch) option" where
  "download_or_bust h hash urls s =
     (if destfile s \<noteq> None then
        if \<not> validate_hash h (destfile s) hash
        then map_option (Pair 0) (retry h hash urls (s\<lparr>destfile := None\<rparr>))
        else Some (1, s)
      else map_option (Pair 0) (retry h hash urls s))"

section \<open>Definitions for the statements\<close>

subsection \<open>What the specification says of a tag\<close>

text \<open>
  A tag whose key starts with the node-template prefix stands for one label: the key
  without the prefix, with the tag's value. Any other tag stands for none.
\<close>

definition tagLabel :: "Tag \<Rightarrow> (string \<times> string) option" where
  "tagLabel tag =
     (let key = StringValue (Key tag); n = length ClusterAutoscalerNodeTemplateLabel in
      if take n key = ClusterAutoscalerNodeTemplateLabel
      then Some (drop n key, StringValue (Value tag))
      else None)"

subsection \<open>The resolution without the cache, and the log lines\<close>

text \<open>
  Lines 125 to 146 of \<open>IdentifyNode\<close> as one value: the cloud lookup, the state check and
  the labels, without the events. The two log lines of the function, each written when
  the error is not nil.
\<close>

definition resolve :: "EC2API \<Rightarrow> string \<Rightarrow> error + Info" where
  "resolve client instanceID =
     (case getInstance client instanceID of
        Inl e \<Rightarrow> Inl e
      | Inr None \<Rightarrow> Inl Panic
      | Inr (Some instance) \<Rightarrow>
          if instanceState instance \<noteq> InstanceStateNameRunning
          then Inl (InstanceNotRunning instanceID (instanceState instance))
          else (case deriveLabels instance of
                  Inl e \<Rightarrow> Inl e
                | Inr labels \<Rightarrow> Inr \<lparr>InstanceID = instanceID, Labels = labels\<rparr>))"

definition readLog :: "string option \<Rightarrow> event list" where
  "readLog err = (case err of None \<Rightarrow> [] | Some e \<Rightarrow> [Warningf (CacheLookupFailure e)])"

definition addLog :: "string option \<Rightarrow> event list" where
  "addLog err = (case err of None \<Rightarrow> [] | Some e \<Rightarrow> [Warningf (CacheAddFailure e)])"

text \<open>
  A store that behaves as the given one but never reports an error, to compare a call
  with the same call in which nothing failed; and the events that are log lines.
\<close>

definition withoutErrors :: "'s Store \<Rightarrow> 's Store" where
  "withoutErrors store =
     \<lparr>GetByKey = (\<lambda>c key. case GetByKey store c key of
                               ((obj, exists, err), c') \<Rightarrow> ((obj, exists, None), c')),
      Add = (\<lambda>c info. case Add store c info of (err, c') \<Rightarrow> (None, c'))\<rparr>"

definition isWarningf :: "event \<Rightarrow> bool" where
  "isWarningf e = (case e of Warningf w \<Rightarrow> True | _ \<Rightarrow> False)"

subsection \<open>Instances, clients and nodes to run the code on\<close>

definition runningState :: "InstanceState option" where
  "runningState = Some \<lparr>Name = Some ''running''\<rparr>"

definition exampleInstance :: Instance where
  "exampleInstance =
     \<lparr>State = runningState, InstanceLifecycle = None,
      Tags = [Some \<lparr>Key = Some (ClusterAutoscalerNodeTemplateLabel @ ''foo''), Value = Some ''bar''\<rparr>,
              Some \<lparr>Key = Some ''Name'', Value = Some ''node-1''\<rparr>]\<rparr>"

definition spotInstance :: Instance where
  "spotInstance = \<lparr>State = runningState, InstanceLifecycle = Some ''spot'', Tags = []\<rparr>"

definition stoppedInstance :: Instance where
  "stoppedInstance =
     \<lparr>State = Some \<lparr>Name = Some ''stopped''\<rparr>, InstanceLifecycle = None, Tags = []\<rparr>"

definition statelessInstance :: Instance where
  "statelessInstance = \<lparr>State = None, InstanceLifecycle = None, Tags = []\<rparr>"

text \<open>A client answering every request with the given reservations, and one that fails.\<close>

definition respond :: "Instance list list \<Rightarrow> EC2API" where
  "respond rs ids =
     (Some \<lparr>Reservations = map (\<lambda>instances. Some \<lparr>Instances = map Some instances\<rparr>) rs\<rparr>,
      None)"

definition noClient :: EC2API where
  "noClient ids = (None, Some ''RequestError'')"

text \<open>
  An instance in the state of the given name, one whose state has no name, and the
  identifier without caching that works on a given client.
\<close>

definition instanceInState :: "string \<Rightarrow> Instance" where
  "instanceInState name =
     \<lparr>State = Some \<lparr>Name = Some name\<rparr>, InstanceLifecycle = None, Tags = []\<rparr>"

definition namelessInstance :: Instance where
  "namelessInstance = \<lparr>State = Some \<lparr>Name = None\<rparr>, InstanceLifecycle = None, Tags = []\<rparr>"

definition uncached :: "EC2API \<Rightarrow> TTLStore nodeIdentifier" where
  "uncached client =
     \<lparr>ec2Client = client, cache = NewTTLStore stringKeyFunc cacheTTL 0, cacheEnabled = False\<rparr>"

definition node1 :: Node where
  "node1 = \<lparr>NodeName = ''node-1'', ProviderID = ''aws:///us-east-1a/i-0abc''\<rparr>"

definition nodeEmptyID :: Node where
  "nodeEmptyID = \<lparr>NodeName = ''node-2'', ProviderID = ''aws://a/b/''\<rparr>"

definition spotInfo :: Info where
  "spotInfo = \<lparr>InstanceID = ''i-0abc'',
               Labels = [''node-role.kubernetes.io/spot-worker'' \<mapsto> ''true'']\<rparr>"

definition cachedInfo :: Info where
  "cachedInfo = \<lparr>InstanceID = ''i-0abc'', Labels = Map.empty\<rparr>"

text \<open>
  Two stores without state: one whose reads report an item together with an error, and one
  on which every read and every write fails.
\<close>

definition presentDespiteError :: "unit Store" where
  "presentDespiteError =
     \<lparr>GetByKey = (\<lambda>c key. ((Some cachedInfo, True, Some ''read failure''), c)),
      Add = (\<lambda>c info. (None, c))\<rparr>"

definition failingStore :: "unit Store" where
  "failingStore =
     \<lparr>GetByKey = (\<lambda>c key. ((None, False, Some ''read failure''), c)),
      Add = (\<lambda>c info. (Some ''write failure'', c))\<rparr>"

text \<open>The TTL store after \<open>spotInfo\<close> was added at time 0.\<close>

definition storeAfterFirst :: TTLStore where
  "storeAfterFirst =
     \<lparr>items = [''i-0abc'' \<mapsto> (spotInfo, 0)], keyFunc = stringKeyFunc, ttl = cacheTTL,
      clock = 0\<rparr>"

subsection \<open>A host to download on\<close>

text \<open>
  Every download succeeds; \<^verbatim>\<open>u1\<close> serves bytes of another digest than \<^verbatim>\<open>H\<close>, any other
  url the bytes whose digest is \<^verbatim>\<open>H\<close>. No file is at the destination at first.
\<close>

definition mockHost :: host where
  "mockHost =
     \<lparr>sha256sum = (\<lambda>bytes. if bytes = ''right'' then ''H'' else ''other''),
      run = (\<lambda>n cmd url old. (True, Some (if url = ''u1'' then ''wrong'' else ''right'')))\<rparr>"

definition freshFetch :: fetch where
  "freshFetch = \<lparr>destfile = None, attempts = [], sleeps = 0\<rparr>"

section \<open>Properties\<close>

subsection \<open>Splitting and prefixes\<close>

lemma Split_not_Nil: "Split s sep \<noteq> []"
  by (induction s) auto

lemma Split_Cons:
  "Split (c # cs) sep =
     (case Split cs sep of [] \<Rightarrow> []
      | t # ts \<Rightarrow> if c = sep then [] # t # ts else (c # t) # ts)"
  using Split_not_Nil [of cs sep] by (cases "Split cs sep") simp_all

lemma Split_no_sep: "sep \<notin> set s \<Longrightarrow> Split s sep = [s]"
  by (induction s) auto

lemma Split_at_sep: "sep \<notin> set a \<Longrightarrow> Split (a @ sep # r) sep = a # Split r sep"
  by (induction a) auto

lemma length_Split: "length (Split s sep) = Suc (length (filter (\<lambda>c. c = sep) s))"
  by (induction s) auto

lemma six: "Suc (Suc (Suc (Suc (Suc (Suc 0))))) = 6"
  by simp

lemma HasPrefix_aws: "HasPrefix p ''aws://'' = (take 6 p = ''aws://'')"
  by (simp add: HasPrefix_def six)

lemma TrimPrefix_aws: "TrimPrefix p ''aws://'' = (if take 6 p = ''aws://'' then drop 6 p else p)"
  by (simp add: TrimPrefix_def HasPrefix_def six)

lemmas parse_eval = parseProviderID_def HasPrefix_aws TrimPrefix_aws Split_Cons

lemma parse_three_segments:
  assumes "CHR ''/'' \<notin> set a" "CHR ''/'' \<notin> set b" "CHR ''/'' \<notin> set c"
      and "ProviderID node = ''aws://'' @ a @ ''/'' @ b @ ''/'' @ c"
  shows "parseProviderID node = Inr c"
  using assms
  by (simp add: parseProviderID_def HasPrefix_def TrimPrefix_def Split_at_sep Split_no_sep)

lemma parse_malformed:
  assumes "ProviderID node = [] \<or> take 6 (ProviderID node) \<noteq> ''aws://'' \<or>
           length (filter (\<lambda>c. c = CHR ''/'') (drop 6 (ProviderID node))) \<noteq> 2"
  shows "parseProviderID node =
           Inl (if ProviderID node = [] then ProviderIDNotSet (NodeName node)
                else ProviderIDNotRecognized (ProviderID node) (NodeName node))"
  using assms
  by (auto simp: parseProviderID_def HasPrefix_aws TrimPrefix_aws length_Split Let_def)

subsection \<open>Parsing the provider id\<close>

text \<open>
  C1, as the code has it. A provider id made of \<^verbatim>\<open>aws://\<close> and exactly three segments
  between slashes, \<^verbatim>\<open>aws://<segment>/<zone>/<id>\<close> (the first segment is empty in
  \<^verbatim>\<open>aws:///zone/id\<close>), is parsed to exactly \<^verbatim>\<open>id\<close>. For a malformed provider id (the
  empty string, a string not starting with \<^verbatim>\<open>aws://\<close>, or a number of slashes after the
  scheme other than two, that is a number of segments other than three) \<open>IdentifyNode\<close>
  returns an error at once: the call has no event, so neither a cache lookup nor a cloud
  call, and the store is as it was.
\<close>

theorem provider_id_parsing:
  "(CHR ''/'' \<notin> set seg \<and> CHR ''/'' \<notin> set zone \<and> CHR ''/'' \<notin> set iid \<longrightarrow>
      parseProviderID \<lparr>NodeName = n, ProviderID = ''aws://'' @ seg @ ''/'' @ zone @ ''/'' @ iid\<rparr>
        = Inr iid) \<and>
   (ProviderID node = [] \<or> take 6 (ProviderID node) \<noteq> ''aws://'' \<or>
      length (filter (\<lambda>c. c = CHR ''/'') (drop 6 (ProviderID node))) \<noteq> 2 \<longrightarrow>
      IdentifyNode store i node =
        (Inl (if ProviderID node = [] then ProviderIDNotSet (NodeName node)
              else ProviderIDNotRecognized (ProviderID node) (NodeName node)),
         [], cache i))"
proof -
  have "parseProviderID \<lparr>NodeName = n, ProviderID = ''aws://'' @ seg @ ''/'' @ zone @ ''/'' @ iid\<rparr>
          = Inr iid"
    if "CHR ''/'' \<notin> set seg" "CHR ''/'' \<notin> set zone" "CHR ''/'' \<notin> set iid"
    using that by (intro parse_three_segments [of seg zone iid]) simp_all
  then show ?thesis
    using parse_malformed [of node] by (simp add: IdentifyNode_def)
qed

theorem provider_id_parsing_witness:
  "parseProviderID \<lparr>NodeName = ''node-1'', ProviderID = ''aws:///us-east-1a/i-0abc''\<rparr>
     = Inr ''i-0abc'' \<and>
   IdentifyNode TTLStoreOps (New noClient 0 True)
       \<lparr>NodeName = ''node-1'', ProviderID = ''gce://us-east-1a/i-0abc/x''\<rparr>
     = (Inl (ProviderIDNotRecognized ''gce://us-east-1a/i-0abc/x'' ''node-1''), [],
        cache (New noClient 0 True))"
proof -
  have a: "CHR ''/'' \<notin> set [] \<and> CHR ''/'' \<notin> set ''us-east-1a'' \<and> CHR ''/'' \<notin> set ''i-0abc''"
    by simp
  have b: "take 6 (ProviderID \<lparr>NodeName = ''node-1'', ProviderID = ''gce://us-east-1a/i-0abc/x''\<rparr>)
             \<noteq> ''aws://''"
    by simp
  from a b provider_id_parsing [of "[]" "''us-east-1a''" "''i-0abc''" "''node-1''"
      "\<lparr>NodeName = ''node-1'', ProviderID = ''gce://us-east-1a/i-0abc/x''\<rparr>"
      TTLStoreOps "New noClient 0 True"]
  show ?thesis by simp
qed

text \<open>
  A provider id of the form \<^verbatim>\<open>scheme://zone/id\<close> has two segments after the scheme and
  is refused: its \<^verbatim>\<open>id\<close> is not what parsing yields.
\<close>

theorem provider_id_two_segments_counterexample:
  "parseProviderID \<lparr>NodeName = ''node-1'', ProviderID = ''aws://us-east-1a/i-0abc''\<rparr>
     \<noteq> Inr ''i-0abc''"
  by (simp add: parse_eval del: Split.simps(2))

subsection \<open>The cloud lookup\<close>

text \<open>
  C3 at a response of two reservations with one instance each: two instances match, and
  \<open>getInstance\<close> returns the first of them instead of an error, since it counts the
  instances of the first reservation only.
\<close>

theorem getInstance_two_reservations:
  "getInstance (respond [[spotInstance], [stoppedInstance]]) ''i-0abc'' = Inr (Some spotInstance)"
  by (simp add: getInstance_def respond_def)

subsection \<open>Label derivation\<close>

lemma map_upd_add: "m(k \<mapsto> v) ++ r = m ++ ([k \<mapsto> v] ++ r)"
  by (rule ext) (simp add: map_add_def split: option.splits)

lemma tagLabel_None: "tagLabel t = None \<Longrightarrow> tagLabels (Some t # tags) m = tagLabels tags m"
  by (simp add: tagLabel_def HasPrefix_def Let_def split: if_splits)

lemma tagLabel_Some:
  "tagLabel t = Some (k, v) \<Longrightarrow> tagLabels (Some t # tags) m = tagLabels tags (m(k \<mapsto> v))"
  by (auto simp: tagLabel_def HasPrefix_def TrimPrefix_def Let_def split: if_splits)

lemma tagLabels_closed:
  "tagLabels (map Some tags) m = Inr (m ++ map_of (rev (List.map_filter tagLabel tags)))"
proof (induction tags arbitrary: m)
  case Nil
  then show ?case by (simp add: List.map_filter_simps)
next
  case (Cons t tags)
  show ?case
  proof (cases "tagLabel t")
    case None
    with Cons.IH [of m] show ?thesis
      by (simp add: List.map_filter_simps tagLabel_None del: tagLabels.simps)
  next
    case (Some kv)
    obtain k v where kv: "kv = (k, v)" by (cases kv)
    have "tagLabels (map Some (t # tags)) m = tagLabels (map Some tags) (m(k \<mapsto> v))"
      using Some kv by (simp add: tagLabel_Some del: tagLabels.simps)
    also have "\<dots> = Inr (m(k \<mapsto> v) ++ map_of (rev (List.map_filter tagLabel tags)))"
      by (rule Cons.IH)
    also have "\<dots> = Inr (m ++ ([k \<mapsto> v] ++ map_of (rev (List.map_filter tagLabel tags))))"
      by (simp only: map_upd_add [of m])
    also have "[k \<mapsto> v] ++ map_of (rev (List.map_filter tagLabel tags)) =
                 map_of (rev (List.map_filter tagLabel (t # tags)))"
      using Some kv by (simp add: List.map_filter_simps)
    finally show ?thesis .
  qed
qed

lemma tagLabel_prefixed:
  "tagLabel \<lparr>Key = Some (ClusterAutoscalerNodeTemplateLabel @ k), Value = val\<rparr>
     = Some (k, StringValue val)"
  by (simp add: tagLabel_def StringValue_def)

lemma tagLabel_Name: "tagLabel \<lparr>Key = Some ''Name'', Value = val\<rparr> = None"
  by (simp add: tagLabel_def StringValue_def ClusterAutoscalerNodeTemplateLabel_def)

text \<open>
  C6, as the code has it. For an instance whose tags are all there (no nil pointer among
  them), label derivation yields the map that starts empty, gets
  \<^verbatim>\<open>node-role.kubernetes.io/<lifecycle>-worker = "true"\<close> if the instance has a lifecycle,
  and then gets, in the order of the tags, the label of every tag whose key starts with the
  node-template prefix: the key without the prefix, with the tag's value, a later label
  replacing an earlier one of the same key. A tag without the prefix adds nothing.
\<close>

theorem deriveLabels_closed:
  assumes "Tags instance = map Some tags"
  shows "deriveLabels instance =
           Inr ((case InstanceLifecycle instance of
                   None \<Rightarrow> Map.empty
                 | Some lifecycle \<Rightarrow>
                     [''node-role.kubernetes.io/'' @ lifecycle @ ''-worker'' \<mapsto> ''true''])
                ++ map_of (rev (List.map_filter tagLabel tags)))"
  using assms by (simp add: deriveLabels_def lifecycleLabels_def tagLabels_closed)

theorem deriveLabels_closed_witness:
  "deriveLabels exampleInstance = Inr [''foo'' \<mapsto> ''bar''] \<and>
   deriveLabels spotInstance = Inr [''node-role.kubernetes.io/spot-worker'' \<mapsto> ''true'']"
proof -
  have "deriveLabels exampleInstance = Inr [''foo'' \<mapsto> ''bar'']"
    using deriveLabels_closed [of exampleInstance
        "[\<lparr>Key = Some (ClusterAutoscalerNodeTemplateLabel @ ''foo''), Value = Some ''bar''\<rparr>,
          \<lparr>Key = Some ''Name'', Value = Some ''node-1''\<rparr>]"]
    by (simp add: exampleInstance_def List.map_filter_simps tagLabel_prefixed tagLabel_Name
        StringValue_def)
  moreover have "deriveLabels spotInstance =
                   Inr [''node-role.kubernetes.io/spot-worker'' \<mapsto> ''true'']"
    using deriveLabels_closed [of spotInstance "[]"]
    by (simp add: spotInstance_def List.map_filter_simps)
  ultimately show ?thesis by simp
qed

text \<open>
  The label of a spot instance is not \<^verbatim>\<open>node-role/spot-worker\<close>.
\<close>

theorem lifecycle_label_counterexample:
  "deriveLabels spotInstance \<noteq> Inr [''node-role/spot-worker'' \<mapsto> ''true'']"
proof
  assume "deriveLabels spotInstance = Inr [''node-role/spot-worker'' \<mapsto> ''true'']"
  then have "[''node-role.kubernetes.io/spot-worker'' \<mapsto> ''true''] =
             [''node-role/spot-worker'' \<mapsto> ''true'']"
    by (simp add: deriveLabels_def lifecycleLabels_def spotInstance_def)
  then have "[''node-role.kubernetes.io/spot-worker'' \<mapsto> ''true''] ''node-role/spot-worker'' =
             [''node-role/spot-worker'' \<mapsto> ''true''] ''node-role/spot-worker''"
    by (rule fun_cong)
  then show False by simp
qed

subsection \<open>The shape of a call\<close>

lemma IdentifyNode_after_lookup:
  assumes "parseProviderID node = Inr instanceID"
      and "cacheLookup store i instanceID = (None, evs, c)"
      and "getInstance (ec2Client i) instanceID = Inr (Some instance)"
  shows "IdentifyNode store i node =
           (if instanceState instance \<noteq> InstanceStateNameRunning
            then (Inl (InstanceNotRunning instanceID (instanceState instance)),
                  evs @ [DescribeInstances [instanceID]], c)
            else
              (case deriveLabels instance of
                 Inl e \<Rightarrow> (Inl e, evs @ [DescribeInstances [instanceID]], c)
               | Inr labels \<Rightarrow>
                   (Inr \<lparr>InstanceID = instanceID, Labels = labels\<rparr>,
                    evs @ [DescribeInstances [instanceID]] @
                      fst (cacheAdd store (cacheEnabled i) c
                             \<lparr>InstanceID = instanceID, Labels = labels\<rparr>),
                    snd (cacheAdd store (cacheEnabled i) c
                           \<lparr>InstanceID = instanceID, Labels = labels\<rparr>))))"
  using assms by (simp add: IdentifyNode_def Let_def split: sum.splits prod.splits)

lemma IdentifyNode_enabled:
  assumes "cacheEnabled i" "parseProviderID node = Inr k"
      and "GetByKey store (cache i) k = ((obj, exists, rerr), c)"
  shows "IdentifyNode store i node =
     (if exists
      then (case obj of None \<Rightarrow> Inl Panic | Some info \<Rightarrow> Inr info,
            CacheGetByKey k # readLog rerr, c)
      else
        (case resolve (ec2Client i) k of
           Inl e \<Rightarrow> (Inl e, CacheGetByKey k # readLog rerr @ [DescribeInstances [k]], c)
         | Inr info \<Rightarrow>
             (Inr info,
              CacheGetByKey k # readLog rerr @ [DescribeInstances [k], CacheAdd info]
                @ addLog (fst (Add store c info)),
              snd (Add store c info))))"
  using assms
  by (simp add: IdentifyNode_def cacheLookup_def cacheAdd_def resolve_def readLog_def addLog_def
      Let_def split: sum.splits option.splits prod.splits)

lemma IdentifyNode_disabled:
  assumes "\<not> cacheEnabled i" "parseProviderID node = Inr k"
  shows "IdentifyNode store i node =
        (case resolve (ec2Client i) k of
           Inl e \<Rightarrow> (Inl e, [DescribeInstances [k]], cache i)
         | Inr info \<Rightarrow> (Inr info, [DescribeInstances [k]], cache i))"
  using assms
  by (simp add: IdentifyNode_def cacheLookup_def cacheAdd_def resolve_def
      Let_def split: sum.splits option.splits prod.splits)

lemma resolve_InstanceID: "resolve client k = Inr info \<Longrightarrow> InstanceID info = k"
  by (auto simp: resolve_def split: sum.splits option.splits if_splits)

lemma isWarningf_simps [simp]:
  "isWarningf (Warningf w)" "\<not> isWarningf (CacheGetByKey k)" "\<not> isWarningf (CacheAdd info)"
  "\<not> isWarningf (DescribeInstances ids)"
  by (simp_all add: isWarningf_def)

lemma logs_None [simp]: "readLog None = []" "addLog None = []"
  by (simp_all add: readLog_def addLog_def)

lemma not_warning_readLog: "filter (\<lambda>e. \<not> isWarningf e) (readLog err) = []"
  by (simp add: readLog_def split: option.splits)

lemma not_warning_addLog: "filter (\<lambda>e. \<not> isWarningf e) (addLog err) = []"
  by (simp add: addLog_def split: option.splits)

lemma readLog_Some: "Warningf (CacheLookupFailure e) \<in> set (readLog (Some e))"
  by (simp add: readLog_def)

lemma addLog_Some: "Warningf (CacheAddFailure e) \<in> set (addLog (Some e))"
  by (simp add: addLog_def)

lemma not_in_logs [simp]:
  "CacheAdd info \<notin> set (readLog err)" "CacheAdd info \<notin> set (addLog err)"
  "DescribeInstances ids \<notin> set (readLog err)" "DescribeInstances ids \<notin> set (addLog err)"
  by (simp_all add: readLog_def addLog_def split: option.splits)

lemma cloudCalls_simps [simp]:
  "cloudCalls [] = 0"
  "cloudCalls (DescribeInstances ids # evs) = Suc (cloudCalls evs)"
  "cloudCalls (CacheGetByKey k # evs) = cloudCalls evs"
  "cloudCalls (CacheAdd info # evs) = cloudCalls evs"
  "cloudCalls (Warningf w # evs) = cloudCalls evs"
  "cloudCalls (evs @ evs') = cloudCalls evs + cloudCalls evs'"
  "cloudCalls (readLog err) = 0" "cloudCalls (addLog err) = 0"
  by (simp_all add: cloudCalls_def readLog_def addLog_def split: option.splits)

lemma withoutErrors_GetByKey:
  "GetByKey store c k = ((obj, exists, rerr), c') \<Longrightarrow>
   GetByKey (withoutErrors store) c k = ((obj, exists, None), c')"
  by (simp add: withoutErrors_def)

lemma withoutErrors_Add: "Add (withoutErrors store) c info = (None, snd (Add store c info))"
  by (simp add: withoutErrors_def split: prod.splits)

lemma TTLStoreOps_simps [simp]:
  "GetByKey TTLStoreOps = TTL_GetByKey" "Add TTLStoreOps = TTL_Add"
  by (simp_all add: TTLStoreOps_def)

text \<open>The code on the instances, clients and nodes defined above.\<close>

lemma node1_parse: "parseProviderID node1 = Inr ''i-0abc''"
  by (simp add: node1_def parse_eval del: Split.simps(2))

lemma lookup_disabled:
  "cacheLookup store \<lparr>ec2Client = cl, cache = c, cacheEnabled = False\<rparr> k = (None, [], c)"
  by (simp add: cacheLookup_def)

lemma getInstance_single: "getInstance (respond [[inst]]) k = Inr (Some inst)"
  by (simp add: getInstance_def respond_def)

lemma instanceState_stopped: "instanceState stoppedInstance = ''stopped''"
  by (simp add: instanceState_def stoppedInstance_def StringValue_def)

lemma instanceState_spot: "instanceState spotInstance = ''running''"
  by (simp add: instanceState_def spotInstance_def runningState_def StringValue_def)

lemma deriveLabels_spot:
  "deriveLabels spotInstance = Inr [''node-role.kubernetes.io/spot-worker'' \<mapsto> ''true'']"
  by (simp add: deriveLabels_def lifecycleLabels_def spotInstance_def)

lemma resolve_spot:
  "resolve (respond [[spotInstance]]) k =
     Inr \<lparr>InstanceID = k, Labels = [''node-role.kubernetes.io/spot-worker'' \<mapsto> ''true'']\<rparr>"
  by (simp add: resolve_def getInstance_single instanceState_spot InstanceStateNameRunning_def
      deriveLabels_spot)

lemma resolve_noClient: "resolve noClient k = Inl (DescribeInstancesError ''RequestError'')"
  by (simp add: resolve_def getInstance_def noClient_def)

subsection \<open>The state check\<close>

lemma tagLabels_Inl: "tagLabels tags m = Inl e \<Longrightarrow> e = Panic"
  by (induction tags m rule: tagLabels.induct) (auto split: if_splits)

lemma deriveLabels_Inl: "deriveLabels instance = Inl e \<Longrightarrow> e = Panic"
  by (auto simp: deriveLabels_def dest: tagLabels_Inl)

lemma getInstance_uncached:
  "getInstance (ec2Client (uncached (respond [[inst]]))) k = Inr (Some inst)"
  by (simp add: uncached_def getInstance_single)

lemma lookup_uncached:
  "cacheLookup store (uncached client) k = (None, [], NewTTLStore stringKeyFunc cacheTTL 0)"
  by (simp add: uncached_def cacheLookup_def)

text \<open>
  C5. When the provider id is well formed, the cache gave no early return and the cloud
  lookup matched a single instance, the state check reads the \<^verbatim>\<open>State\<close> of the instance
  and the \<^verbatim>\<open>Name\<close> in it:
  \<^item> a state name other than \<^verbatim>\<open>"running"\<close>, whichever it is (pending, stopping, terminated,
    a name unknown to EC2), makes \<open>IdentifyNode\<close> return the error that carries the
    instance id and exactly this name, after the one cloud call and with the store
    untouched;
  \<^item> so does a state without a name, the name in the error being empty, and an instance
    without a state, the name in the error being \<^verbatim>\<open>"?"\<close>;
  \<^item> the state name \<^verbatim>\<open>"running"\<close> makes the result the one of label derivation, the labels
    being returned under the instance id;
  \<^item> the call ends in the state-check error exactly when the state name is not
    \<^verbatim>\<open>"running"\<close>.
\<close>

theorem state_check:
  assumes "parseProviderID node = Inr instanceID"
      and "cacheLookup store i instanceID = (None, evs, c)"
      and "getInstance (ec2Client i) instanceID = Inr (Some instance)"
  shows "(State instance = Some st \<and> Name st = Some name \<and> name \<noteq> ''running'' \<longrightarrow>
            IdentifyNode store i node =
              (Inl (InstanceNotRunning instanceID name),
               evs @ [DescribeInstances [instanceID]], c)) \<and>
         (State instance = Some st \<and> Name st = None \<longrightarrow>
            IdentifyNode store i node =
              (Inl (InstanceNotRunning instanceID []),
               evs @ [DescribeInstances [instanceID]], c)) \<and>
         (State instance = None \<longrightarrow>
            IdentifyNode store i node =
              (Inl (InstanceNotRunning instanceID ''?''),
               evs @ [DescribeInstances [instanceID]], c)) \<and>
         (State instance = Some st \<and> Name st = Some ''running'' \<longrightarrow>
            fst (IdentifyNode store i node) =
              map_sum (\<lambda>e. e) (\<lambda>labels. \<lparr>InstanceID = instanceID, Labels = labels\<rparr>)
                (deriveLabels instance)) \<and>
         ((\<exists>x y. fst (IdentifyNode store i node) = Inl (InstanceNotRunning x y)) \<longleftrightarrow>
            (\<forall>s. State instance = Some s \<longrightarrow> Name s \<noteq> Some ''running''))"
proof -
  note a = IdentifyNode_after_lookup [OF assms]
  show ?thesis
  proof (cases "State instance")
    case None
    with a show ?thesis
      by (simp add: instanceState_def InstanceStateNameRunning_def)
  next
    case s: (Some s)
    show ?thesis
    proof (cases "Name s")
      case None
      with s a show ?thesis
        by (auto simp: instanceState_def InstanceStateNameRunning_def StringValue_def)
    next
      case n: (Some n)
      show ?thesis
      proof (cases "n = ''running''")
        case False
        with s n a show ?thesis
          by (auto simp: instanceState_def InstanceStateNameRunning_def StringValue_def)
      next
        case True
        with s n a show ?thesis
          by (auto simp: instanceState_def InstanceStateNameRunning_def StringValue_def
              split: sum.splits dest: deriveLabels_Inl)
      qed
    qed
  qed
qed

theorem state_check_witness:
  "IdentifyNode TTLStoreOps (uncached (respond [[instanceInState ''pending'']])) node1 =
     (Inl (InstanceNotRunning ''i-0abc'' ''pending''), [DescribeInstances [''i-0abc'']],
      NewTTLStore stringKeyFunc cacheTTL 0) \<and>
   IdentifyNode TTLStoreOps (uncached (respond [[instanceInState ''stopping'']])) node1 =
     (Inl (InstanceNotRunning ''i-0abc'' ''stopping''), [DescribeInstances [''i-0abc'']],
      NewTTLStore stringKeyFunc cacheTTL 0) \<and>
   IdentifyNode TTLStoreOps (uncached (respond [[instanceInState ''terminated'']])) node1 =
     (Inl (InstanceNotRunning ''i-0abc'' ''terminated''), [DescribeInstances [''i-0abc'']],
      NewTTLStore stringKeyFunc cacheTTL 0) \<and>
   IdentifyNode TTLStoreOps (uncached (respond [[instanceInState ''hibernating'']])) node1 =
     (Inl (InstanceNotRunning ''i-0abc'' ''hibernating''), [DescribeInstances [''i-0abc'']],
      NewTTLStore stringKeyFunc cacheTTL 0) \<and>
   IdentifyNode TTLStoreOps (uncached (respond [[stoppedInstance]])) node1 =
     (Inl (InstanceNotRunning ''i-0abc'' ''stopped''), [DescribeInstances [''i-0abc'']],
      NewTTLStore stringKeyFunc cacheTTL 0) \<and>
   IdentifyNode TTLStoreOps (uncached (respond [[namelessInstance]])) node1 =
     (Inl (InstanceNotRunning ''i-0abc'' []), [DescribeInstances [''i-0abc'']],
      NewTTLStore stringKeyFunc cacheTTL 0) \<and>
   IdentifyNode TTLStoreOps (uncached (respond [[statelessInstance]])) node1 =
     (Inl (InstanceNotRunning ''i-0abc'' ''?''), [DescribeInstances [''i-0abc'']],
      NewTTLStore stringKeyFunc cacheTTL 0) \<and>
   fst (IdentifyNode TTLStoreOps (uncached (respond [[spotInstance]])) node1) = Inr spotInfo"
proof -
  note t = state_check [OF node1_parse lookup_uncached getInstance_uncached]
  have other: "IdentifyNode TTLStoreOps (uncached (respond [[instanceInState name]])) node1 =
     (Inl (InstanceNotRunning ''i-0abc'' name), [DescribeInstances [''i-0abc'']],
      NewTTLStore stringKeyFunc cacheTTL 0)" if "name \<noteq> ''running''" for name
    using that t [where ?instance = "instanceInState name" and st = "\<lparr>Name = Some name\<rparr>"
        and name = name and store = TTLStoreOps]
    by (simp add: instanceInState_def)
  have stopped: "IdentifyNode TTLStoreOps (uncached (respond [[stoppedInstance]])) node1 =
     (Inl (InstanceNotRunning ''i-0abc'' ''stopped''), [DescribeInstances [''i-0abc'']],
      NewTTLStore stringKeyFunc cacheTTL 0)"
    using t [where ?instance = stoppedInstance and st = "\<lparr>Name = Some ''stopped''\<rparr>"
        and name = "''stopped''" and store = TTLStoreOps]
    by (simp add: stoppedInstance_def)
  have nameless: "IdentifyNode TTLStoreOps (uncached (respond [[namelessInstance]])) node1 =
     (Inl (InstanceNotRunning ''i-0abc'' []), [DescribeInstances [''i-0abc'']],
      NewTTLStore stringKeyFunc cacheTTL 0)"
    using t [where ?instance = namelessInstance and st = "\<lparr>Name = None\<rparr>"
        and store = TTLStoreOps]
    by (simp add: namelessInstance_def)
  have stateless: "IdentifyNode TTLStoreOps (uncached (respond [[statelessInstance]])) node1 =
     (Inl (InstanceNotRunning ''i-0abc'' ''?''), [DescribeInstances [''i-0abc'']],
      NewTTLStore stringKeyFunc cacheTTL 0)"
    using t [where ?instance = statelessInstance and store = TTLStoreOps]
    by (simp add: statelessInstance_def)
  have running: "fst (IdentifyNode TTLStoreOps (uncached (respond [[spotInstance]])) node1) =
                   Inr spotInfo"
    using t [where ?instance = spotInstance and st = "\<lparr>Name = Some ''running''\<rparr>"
        and store = TTLStoreOps]
    by (simp add: spotInstance_def runningState_def spotInfo_def deriveLabels_spot [unfolded spotInstance_def runningState_def])
  from other [of "''pending''"] other [of "''stopping''"] other [of "''terminated''"]
       other [of "''hibernating''"] stopped nameless stateless running
  show ?thesis by simp
qed

text \<open>
  C9. If the matched instance has no state (a nil \<^verbatim>\<open>State\<close>), the state name is taken to be
  \<^verbatim>\<open>"?"\<close> and \<open>IdentifyNode\<close> returns the state-check error naming \<^verbatim>\<open>"?"\<close>: an ordinary
  error return, not a panic.
\<close>

theorem absent_state:
  assumes "parseProviderID node = Inr instanceID"
      and "cacheLookup store i instanceID = (None, evs, c)"
      and "getInstance (ec2Client i) instanceID = Inr (Some instance)"
      and "State instance = None"
  shows "instanceState instance = ''?'' \<and>
         IdentifyNode store i node =
           (Inl (InstanceNotRunning instanceID ''?''), evs @ [DescribeInstances [instanceID]], c) \<and>
         fst (IdentifyNode store i node) \<noteq> Inl Panic"
  using IdentifyNode_after_lookup [OF assms(1-3)] assms(4)
  by (simp add: instanceState_def InstanceStateNameRunning_def)

theorem absent_state_witness:
  "IdentifyNode TTLStoreOps
       \<lparr>ec2Client = respond [[statelessInstance]], cache = NewTTLStore stringKeyFunc cacheTTL 0,
        cacheEnabled = False\<rparr> node1 =
     (Inl (InstanceNotRunning ''i-0abc'' ''?''), [DescribeInstances [''i-0abc'']],
      NewTTLStore stringKeyFunc cacheTTL 0)"
proof -
  let ?c = "NewTTLStore stringKeyFunc cacheTTL 0"
  let ?i = "\<lparr>ec2Client = respond [[statelessInstance]], cache = ?c, cacheEnabled = False\<rparr>"
  have g: "getInstance (ec2Client ?i) ''i-0abc'' = Inr (Some statelessInstance)"
    by (simp add: getInstance_single)
  have l: "cacheLookup TTLStoreOps ?i ''i-0abc'' = (None, [], ?c)"
    by (rule lookup_disabled)
  have n: "State statelessInstance = None"
    by (simp add: statelessInstance_def)
  from absent_state [OF node1_parse l g n] show ?thesis by simp
qed

subsection \<open>What validation lets through\<close>

lemma events_of_call:
  assumes "parseProviderID node = Inr k"
  shows "(cacheEnabled i \<longrightarrow> CacheGetByKey k \<in> set (fst (snd (IdentifyNode store i node)))) \<and>
         (fst (cacheLookup store i k) = None \<longrightarrow>
            DescribeInstances [k] \<in> set (fst (snd (IdentifyNode store i node))))"
proof (cases "cacheEnabled i")
  case True
  obtain obj exists rerr c where g: "GetByKey store (cache i) k = ((obj, exists, rerr), c)"
    by (cases "GetByKey store (cache i) k") auto
  from True g have "fst (cacheLookup store i k) = None \<longleftrightarrow> \<not> exists"
    by (simp add: cacheLookup_def Let_def)
  then show ?thesis
    by (simp add: IdentifyNode_enabled [OF True assms g] True split: sum.splits)
next
  case False
  then show ?thesis
    by (simp add: IdentifyNode_disabled [OF False assms] split: sum.splits)
qed

text \<open>
  C10. Only the prefix and the number of segments are checked. Whatever the three
  segments after \<^verbatim>\<open>aws://\<close> are, empty ones included, the provider id is accepted and the
  third segment is the instance id: it is the key of the cache lookup when caching is
  enabled, and the id of the cloud lookup whenever the cache gives no early return. So
  \<^verbatim>\<open>aws://a/b/\<close> passes, and the empty instance id is sent to the cloud.
\<close>

theorem three_segments_accepted:
  assumes "CHR ''/'' \<notin> set a" "CHR ''/'' \<notin> set b" "CHR ''/'' \<notin> set c"
      and "ProviderID node = ''aws://'' @ a @ ''/'' @ b @ ''/'' @ c"
  shows "parseProviderID node = Inr c \<and>
         (cacheEnabled i \<longrightarrow> CacheGetByKey c \<in> set (fst (snd (IdentifyNode store i node)))) \<and>
         (fst (cacheLookup store i c) = None \<longrightarrow>
            DescribeInstances [c] \<in> set (fst (snd (IdentifyNode store i node))))"
  using parse_three_segments [OF assms] events_of_call [of node c i store] by simp

theorem three_segments_accepted_witness:
  "parseProviderID nodeEmptyID = Inr [] \<and>
   CacheGetByKey [] \<in> set (fst (snd (IdentifyNode TTLStoreOps (New noClient 0 True) nodeEmptyID))) \<and>
   DescribeInstances [[]] \<in>
     set (fst (snd (IdentifyNode TTLStoreOps (New noClient 0 True) nodeEmptyID)))"
proof -
  have s: "CHR ''/'' \<notin> set ''a''" "CHR ''/'' \<notin> set ''b''" "CHR ''/'' \<notin> set []"
    by simp_all
  have p: "ProviderID nodeEmptyID = ''aws://'' @ ''a'' @ ''/'' @ ''b'' @ ''/'' @ []"
    by (simp add: nodeEmptyID_def)
  have e: "cacheEnabled (New noClient 0 True)"
    by (simp add: New_def)
  have l: "fst (cacheLookup TTLStoreOps (New noClient 0 True) []) = None"
    by (simp add: cacheLookup_def New_def TTL_GetByKey_def NewTTLStore_def)
  from three_segments_accepted [OF s p, of "New noClient 0 True" TTLStoreOps] e l
  show ?thesis by simp
qed

subsection \<open>Failures of the cache\<close>

text \<open>
  C7, as the code has it. For a call with caching enabled, a well-formed provider id and
  a cache read that returned \<open>(obj, exists, rerr)\<close>:
  \<^item> the result, the store and all events but the log lines are those of the same call on
    a store that reports no error, so no cache error is returned as the call's error;
  \<^item> a read error is logged;
  \<^item> when \<open>exists\<close> is false the call goes on to the cloud lookup, read error or not, and
    when \<open>exists\<close> is true it returns the item of the store without a cloud call, read
    error or not;
  \<^item> the store is written only with the info that the call returns, so only after a
    successful resolution, and an error of this write is logged while the info is still
    returned;
  \<^item> a call that returns an error has written nothing: the store is as the read left it.
\<close>

theorem cache_failures:
  assumes "cacheEnabled i" and "parseProviderID node = Inr instanceID"
      and "GetByKey store (cache i) instanceID = ((obj, exists, rerr), c)"
      and "IdentifyNode store i node = (r, evs, c')"
  shows "IdentifyNode (withoutErrors store) i node = (r, filter (\<lambda>e. \<not> isWarningf e) evs, c') \<and>
         (\<forall>e. rerr = Some e \<longrightarrow> Warningf (CacheLookupFailure e) \<in> set evs) \<and>
         (\<not> exists \<longrightarrow> cloudCalls evs = 1 \<and> DescribeInstances [instanceID] \<in> set evs) \<and>
         (exists \<longrightarrow>
            cloudCalls evs = 0 \<and> r = (case obj of None \<Rightarrow> Inl Panic | Some info \<Rightarrow> Inr info)) \<and>
         (\<forall>info. CacheAdd info \<in> set evs \<longrightarrow>
            r = Inr info \<and>
            (\<forall>e. fst (Add store c info) = Some e \<longrightarrow> Warningf (CacheAddFailure e) \<in> set evs)) \<and>
         ((\<exists>e. r = Inl e) \<longrightarrow> c' = c \<and> (\<forall>info. CacheAdd info \<notin> set evs))"
proof -
  note a = IdentifyNode_enabled [OF assms(1-3)]
  note b = IdentifyNode_enabled [OF assms(1,2) withoutErrors_GetByKey [OF assms(3)]]
  show ?thesis
  proof (cases exists)
    case True
    with a b assms(4) show ?thesis
      by (auto simp: not_warning_readLog readLog_Some)
  next
    case False
    show ?thesis
    proof (cases "resolve (ec2Client i) instanceID")
      case (Inl e)
      with False a b assms(4) show ?thesis
        by (auto simp: not_warning_readLog readLog_Some)
    next
      case (Inr info)
      with False a b assms(4) show ?thesis
        by (auto simp: not_warning_readLog not_warning_addLog readLog_Some addLog_Some
            withoutErrors_Add)
    qed
  qed
qed

theorem cache_failures_witness:
  "IdentifyNode failingStore
       \<lparr>ec2Client = respond [[spotInstance]], cache = (), cacheEnabled = True\<rparr> node1
     = (Inr spotInfo,
        [CacheGetByKey ''i-0abc'', Warningf (CacheLookupFailure ''read failure''),
         DescribeInstances [''i-0abc''], CacheAdd spotInfo,
         Warningf (CacheAddFailure ''write failure'')], ()) \<and>
   IdentifyNode (withoutErrors failingStore)
       \<lparr>ec2Client = respond [[spotInstance]], cache = (), cacheEnabled = True\<rparr> node1
     = (Inr spotInfo,
        [CacheGetByKey ''i-0abc'', DescribeInstances [''i-0abc''], CacheAdd spotInfo], ()) \<and>
   IdentifyNode failingStore \<lparr>ec2Client = noClient, cache = (), cacheEnabled = True\<rparr> node1
     = (Inl (DescribeInstancesError ''RequestError''),
        [CacheGetByKey ''i-0abc'', Warningf (CacheLookupFailure ''read failure''),
         DescribeInstances [''i-0abc'']], ()) \<and>
   IdentifyNode (withoutErrors failingStore)
       \<lparr>ec2Client = noClient, cache = (), cacheEnabled = True\<rparr> node1
     = (Inl (DescribeInstancesError ''RequestError''),
        [CacheGetByKey ''i-0abc'', DescribeInstances [''i-0abc'']], ()) \<and>
   IdentifyNode (withoutErrors presentDespiteError)
       \<lparr>ec2Client = noClient, cache = (), cacheEnabled = True\<rparr> node1
     = (Inr cachedInfo, [CacheGetByKey ''i-0abc''], ())"
proof -
  let ?i = "\<lparr>ec2Client = respond [[spotInstance]], cache = (), cacheEnabled = True\<rparr>"
  let ?j = "\<lparr>ec2Client = noClient, cache = (), cacheEnabled = True\<rparr>"
  have e: "cacheEnabled ?i" "cacheEnabled ?j" by simp_all
  have g: "GetByKey failingStore (cache ?i) ''i-0abc'' = ((None, False, Some ''read failure''), ())"
          "GetByKey failingStore (cache ?j) ''i-0abc'' = ((None, False, Some ''read failure''), ())"
    by (simp_all add: failingStore_def)
  have h: "GetByKey presentDespiteError (cache ?j) ''i-0abc''
             = ((Some cachedInfo, True, Some ''read failure''), ())"
    by (simp add: presentDespiteError_def)
  have r1: "IdentifyNode failingStore ?i node1
     = (Inr spotInfo,
        [CacheGetByKey ''i-0abc'', Warningf (CacheLookupFailure ''read failure''),
         DescribeInstances [''i-0abc''], CacheAdd spotInfo,
         Warningf (CacheAddFailure ''write failure'')], ())"
    by (subst IdentifyNode_enabled [OF e(1) node1_parse g(1)])
       (simp add: resolve_spot spotInfo_def failingStore_def readLog_def addLog_def)
  have r2: "IdentifyNode failingStore ?j node1
     = (Inl (DescribeInstancesError ''RequestError''),
        [CacheGetByKey ''i-0abc'', Warningf (CacheLookupFailure ''read failure''),
         DescribeInstances [''i-0abc'']], ())"
    by (subst IdentifyNode_enabled [OF e(2) node1_parse g(2)])
       (simp add: resolve_noClient readLog_def)
  have r3: "IdentifyNode presentDespiteError ?j node1
     = (Inr cachedInfo,
        [CacheGetByKey ''i-0abc'', Warningf (CacheLookupFailure ''read failure'')], ())"
    by (subst IdentifyNode_enabled [OF e(2) node1_parse h]) (simp add: readLog_def)
  from cache_failures [OF e(1) node1_parse g(1) r1] cache_failures [OF e(2) node1_parse g(2) r2]
       cache_failures [OF e(2) node1_parse h r3] r1 r2
  show ?thesis by simp
qed

text \<open>
  A read that reports an error together with an item: the error is logged, and the call
  returns the item without any cloud lookup. It does not go on as after a miss.
\<close>

theorem cache_read_error_counterexample:
  "IdentifyNode presentDespiteError
       \<lparr>ec2Client = respond [[spotInstance]], cache = (), cacheEnabled = True\<rparr> node1
     = (Inr cachedInfo,
        [CacheGetByKey ''i-0abc'', Warningf (CacheLookupFailure ''read failure'')], ())"
proof -
  let ?i = "\<lparr>ec2Client = respond [[spotInstance]], cache = (), cacheEnabled = True\<rparr>"
  have e: "cacheEnabled ?i" by simp
  have g: "GetByKey presentDespiteError (cache ?i) ''i-0abc''
             = ((Some cachedInfo, True, Some ''read failure''), ())"
    by (simp add: presentDespiteError_def)
  show ?thesis
    by (subst IdentifyNode_enabled [OF e node1_parse g]) (simp add: readLog_def)
qed

subsection \<open>The TTL of the cache\<close>

lemma TTL_GetByKey_returned:
  assumes "TTL_GetByKey c key = ((Some x, True, err), c')"
  shows "\<exists>insertedAt. items c key = Some (x, insertedAt) \<and> clock c - insertedAt \<le> ttl c"
  using assms by (auto simp: TTL_GetByKey_def isExpired_def split: option.splits if_splits)

lemma first_call:
  assumes "IdentifyNode TTLStoreOps (New client t0 True) node = (Inr info, evs1, c1)"
  shows "parseProviderID node = Inr (InstanceID info) \<and>
         evs1 = [CacheGetByKey (InstanceID info), DescribeInstances [InstanceID info],
                 CacheAdd info] \<and>
         c1 = \<lparr>items = [InstanceID info \<mapsto> (info, t0)], keyFunc = stringKeyFunc,
               ttl = cacheTTL, clock = t0\<rparr>"
proof (cases "parseProviderID node")
  case (Inl e)
  with assms show ?thesis by (simp add: IdentifyNode_def)
next
  case (Inr k)
  have e: "cacheEnabled (New client t0 True)" by (simp add: New_def)
  have g: "GetByKey TTLStoreOps (cache (New client t0 True)) k =
             ((None, False, None), NewTTLStore stringKeyFunc cacheTTL t0)"
    by (simp add: New_def NewTTLStore_def TTL_GetByKey_def)
  note a = IdentifyNode_enabled [OF e Inr g]
  show ?thesis
  proof (cases "resolve (ec2Client (New client t0 True)) k")
    case (Inl e)
    with a assms show ?thesis by simp
  next
    case r: (Inr info')
    with a assms have "info' = info" by simp
    with r resolve_InstanceID have "InstanceID info = k" by blast
    with a assms r Inr show ?thesis
      by (auto simp: TTL_Add_def NewTTLStore_def stringKeyFunc_def)
  qed
qed

text \<open>
  C4, on the TTL store as the specification describes it. The TTL is 60 minutes. Let a
  first call, on an identifier with caching enabled as \<open>New\<close> returns it at time \<open>t0\<close>,
  resolve some node to \<open>info\<close>; it makes exactly one cloud call. A call for the same
  instance id at a time \<open>t1\<close> at most the TTL after \<open>t0\<close> returns \<open>info\<close> from the cache:
  its only event is the cache read, so the two calls make one cloud call in all. A call at
  a time \<open>t2\<close> more than the TTL after \<open>t0\<close> makes a cloud call again. In general the store
  returns an entry only while its age does not exceed the TTL.
\<close>

theorem ttl_cache:
  assumes "IdentifyNode TTLStoreOps (New client t0 True) node = (Inr info, evs1, c1)"
      and "parseProviderID node' = parseProviderID node"
  shows "cacheTTL = 60 * 60 * 1000000000 \<and>
         cloudCalls evs1 = 1 \<and>
         (t1 - t0 \<le> cacheTTL \<longrightarrow>
            IdentifyNode TTLStoreOps
                \<lparr>ec2Client = client', cache = c1\<lparr>clock := t1\<rparr>, cacheEnabled = True\<rparr> node'
              = (Inr info, [CacheGetByKey (InstanceID info)], c1\<lparr>clock := t1\<rparr>)) \<and>
         (t2 - t0 > cacheTTL \<longrightarrow>
            cloudCalls (fst (snd (IdentifyNode TTLStoreOps
                \<lparr>ec2Client = client', cache = c1\<lparr>clock := t2\<rparr>, cacheEnabled = True\<rparr> node')))
              = 1) \<and>
         (TTL_GetByKey c key = ((Some x, True, err), c') \<longrightarrow>
            (\<exists>insertedAt. items c key = Some (x, insertedAt) \<and> clock c - insertedAt \<le> ttl c))"
proof -
  note f = first_call [OF assms(1)]
  from f assms(2) have p: "parseProviderID node' = Inr (InstanceID info)" by simp
  let ?k = "InstanceID info"
  have hit: "IdentifyNode TTLStoreOps
                \<lparr>ec2Client = client', cache = c1\<lparr>clock := t1\<rparr>, cacheEnabled = True\<rparr> node'
              = (Inr info, [CacheGetByKey ?k], c1\<lparr>clock := t1\<rparr>)" if "t1 - t0 \<le> cacheTTL"
  proof -
    let ?i = "\<lparr>ec2Client = client', cache = c1\<lparr>clock := t1\<rparr>, cacheEnabled = True\<rparr>"
    have e: "cacheEnabled ?i" by simp
    have g: "GetByKey TTLStoreOps (cache ?i) ?k = ((Some info, True, None), c1\<lparr>clock := t1\<rparr>)"
      using f that by (simp add: TTL_GetByKey_def isExpired_def)
    show ?thesis by (simp add: IdentifyNode_enabled [OF e p g])
  qed
  have miss: "cloudCalls (fst (snd (IdentifyNode TTLStoreOps
                \<lparr>ec2Client = client', cache = c1\<lparr>clock := t2\<rparr>, cacheEnabled = True\<rparr> node'))) = 1"
    if "t2 - t0 > cacheTTL"
  proof -
    let ?i = "\<lparr>ec2Client = client', cache = c1\<lparr>clock := t2\<rparr>, cacheEnabled = True\<rparr>"
    have e: "cacheEnabled ?i" by simp
    have g: "GetByKey TTLStoreOps (cache ?i) ?k =
               ((None, False, None), c1\<lparr>clock := t2, items := (items c1)(?k := None)\<rparr>)"
      using f that by (simp add: TTL_GetByKey_def isExpired_def)
    show ?thesis by (simp add: IdentifyNode_enabled [OF e p g] split: sum.splits)
  qed
  from f have "cloudCalls evs1 = 1" by simp
  moreover have "cacheTTL = 60 * 60 * 1000000000" by (simp add: cacheTTL_def Minute_def)
  ultimately show ?thesis using hit miss TTL_GetByKey_returned by blast
qed

theorem ttl_cache_witness:
  "IdentifyNode TTLStoreOps (New (respond [[spotInstance]]) 0 True) node1
     = (Inr spotInfo,
        [CacheGetByKey ''i-0abc'', DescribeInstances [''i-0abc''], CacheAdd spotInfo],
        storeAfterFirst) \<and>
   IdentifyNode TTLStoreOps
       \<lparr>ec2Client = noClient, cache = storeAfterFirst\<lparr>clock := 3600000000000\<rparr>,
        cacheEnabled = True\<rparr> node1
     = (Inr spotInfo, [CacheGetByKey ''i-0abc''], storeAfterFirst\<lparr>clock := 3600000000000\<rparr>) \<and>
   cloudCalls (fst (snd (IdentifyNode TTLStoreOps
       \<lparr>ec2Client = noClient, cache = storeAfterFirst\<lparr>clock := 3600000000001\<rparr>,
        cacheEnabled = True\<rparr> node1))) = 1 \<and>
   TTL_GetByKey (storeAfterFirst\<lparr>clock := 3600000000000\<rparr>) ''i-0abc''
     = ((Some spotInfo, True, None), storeAfterFirst\<lparr>clock := 3600000000000\<rparr>) \<and>
   clock (storeAfterFirst\<lparr>clock := 3600000000000\<rparr>) - 0
     \<le> ttl (storeAfterFirst\<lparr>clock := 3600000000000\<rparr>)"
proof -
  let ?i = "New (respond [[spotInstance]]) 0 True"
  let ?c = "storeAfterFirst\<lparr>clock := 3600000000000\<rparr>"
  have e: "cacheEnabled ?i" by (simp add: New_def)
  have g: "GetByKey TTLStoreOps (cache ?i) ''i-0abc'' =
             ((None, False, None), NewTTLStore stringKeyFunc cacheTTL 0)"
    by (simp add: New_def NewTTLStore_def TTL_GetByKey_def)
  have c: "ec2Client ?i = respond [[spotInstance]]" by (simp add: New_def)
  have first: "IdentifyNode TTLStoreOps ?i node1
     = (Inr spotInfo,
        [CacheGetByKey ''i-0abc'', DescribeInstances [''i-0abc''], CacheAdd spotInfo],
        storeAfterFirst)"
    by (subst IdentifyNode_enabled [OF e node1_parse g])
       (simp add: c resolve_spot spotInfo_def storeAfterFirst_def TTL_Add_def NewTTLStore_def
          stringKeyFunc_def)
  have k: "InstanceID spotInfo = ''i-0abc''" by (simp add: spotInfo_def)
  have t: "cacheTTL = 3600000000000" by (simp add: cacheTTL_def Minute_def)
  have r: "TTL_GetByKey ?c ''i-0abc'' = ((Some spotInfo, True, None), ?c)"
    by (simp add: TTL_GetByKey_def isExpired_def storeAfterFirst_def t)
  have i: "items ?c ''i-0abc'' = Some (spotInfo, 0)"
    by (simp add: storeAfterFirst_def)
  from ttl_cache [OF first refl, where ?t1.0 = 3600000000000 and client' = noClient
         and ?t2.0 = 3600000000001 and c = ?c and key = "''i-0abc''" and x = spotInfo
         and err = None and c' = ?c] first k t r i
  show ?thesis by simp
qed

subsection \<open>\<^verbatim>\<open>download-or-bust\<close>\<close>

lemma attempt_Downloaded:
  "attempt h hash url cmd s = (Downloaded, s') \<Longrightarrow> validate_hash h (destfile s') hash"
  by (auto simp: attempt_def Let_def split: prod.splits if_splits)

lemma attempt_HashMismatch:
  "attempt h hash url cmd s = (HashMismatch, s') \<Longrightarrow> destfile s' = None"
  by (auto simp: attempt_def Let_def split: prod.splits if_splits)

lemma try_commands_returned:
  "try_commands h hash url cmds s = (True, s') \<Longrightarrow> validate_hash h (destfile s') hash"
proof (induction cmds arbitrary: s)
  case Nil
  then show ?case by simp
next
  case (Cons cmd cmds)
  obtain out s1 where a: "attempt h hash url cmd s = (out, s1)"
    by (cases "attempt h hash url cmd s")
  show ?case
  proof (cases out)
    case Downloaded
    with a Cons.prems show ?thesis by (simp add: attempt_Downloaded)
  next
    case DownloadFailed
    with a Cons.prems Cons.IH [of s1] show ?thesis by simp
  next
    case HashMismatch
    with a Cons.prems Cons.IH [of s1] show ?thesis by simp
  qed
qed

lemma try_urls_returned:
  "try_urls h hash urls s = (True, s') \<Longrightarrow> validate_hash h (destfile s') hash"
proof (induction urls arbitrary: s)
  case Nil
  then show ?case by simp
next
  case (Cons url urls)
  obtain ret s1 where t: "try_commands h hash url commands s = (ret, s1)"
    by (cases "try_commands h hash url commands s")
  show ?case
  proof (cases ret)
    case True
    with t Cons.prems show ?thesis by (simp add: try_commands_returned)
  next
    case False
    with t Cons.prems Cons.IH [of s1] show ?thesis by simp
  qed
qed

text \<open>The loop need not return; when it does, the last pass ended in a validated download.\<close>

lemma retry_returned:
  assumes "retry h hash urls s = Some s'"
  shows "validate_hash h (destfile s') hash"
proof (rule retry.raw_induct
    [where P = "\<lambda>h hash urls s s'. validate_hash h (destfile s') hash", OF _ assms])
  fix loop :: "host \<Rightarrow> string \<Rightarrow> string list \<Rightarrow> fetch \<Rightarrow> fetch option"
  fix h hash urls s s'
  assume IH: "\<And>h hash urls s s'. loop h hash urls s = Some s' \<Longrightarrow>
                validate_hash h (destfile s') hash"
  assume step: "(case try_urls h hash urls s of
                   (returned, s') \<Rightarrow>
                     if returned then Some s'
                     else loop h hash urls (s'\<lparr>sleeps := sleeps s' + 1\<rparr>)) = Some s'"
  obtain ret s1 where t: "try_urls h hash urls s = (ret, s1)"
    by (cases "try_urls h hash urls s")
  show "validate_hash h (destfile s') hash"
  proof (cases ret)
    case True
    with t step show ?thesis by (simp add: try_urls_returned)
  next
    case False
    with t step have "loop h hash urls (s1\<lparr>sleeps := sleeps s1 + 1\<rparr>) = Some s'" by simp
    then show ?thesis by (rule IH)
  qed
qed

lemma attempt_wrong:
  assumes "run h (length (attempts s)) cmd url (destfile s) = (True, Some bytes)"
      and "sha256sum h bytes \<noteq> hash"
  shows "attempt h hash url cmd s =
           (HashMismatch, s\<lparr>destfile := None, attempts := attempts s @ [(cmd, url)]\<rparr>)"
  using assms by (simp add: attempt_def validate_hash_def)

lemma attempt_right:
  assumes "run h (length (attempts s)) cmd url (destfile s) = (True, Some bytes)"
      and "sha256sum h bytes = hash"
  shows "attempt h hash url cmd s =
           (Downloaded, s\<lparr>destfile := Some bytes, attempts := attempts s @ [(cmd, url)]\<rparr>)"
  using assms by (simp add: attempt_def validate_hash_def)

lemma try_commands_wrong:
  assumes "\<And>n cmd old. run h n cmd url old = (True, Some bytes)"
      and "sha256sum h bytes \<noteq> hash"
  shows "try_commands h hash url cmds s =
           (False, if cmds = [] then s
                   else s\<lparr>destfile := None,
                          attempts := attempts s @ map (\<lambda>cmd. (cmd, url)) cmds\<rparr>)"
proof (induction cmds arbitrary: s)
  case Nil
  then show ?case by simp
next
  case (Cons cmd cmds)
  show ?case
    by (simp add: attempt_wrong [OF assms(1) assms(2)] Cons.IH)
qed

text \<open>
  C2. Whenever \<^verbatim>\<open>download-or-bust\<close> returns, with whichever status, the destination has
  passed \<^verbatim>\<open>validate-hash\<close> against the expected digest, be it the file that was there or
  one just downloaded: a file at the destination has exactly the expected digest. And a
  downloaded file that fails validation is deleted before the loop goes on: when a
  download exits with 0 and leaves bytes whose digest is not the expected one, the step of
  the loop ends with no file at the destination, and the loop over the commands goes on
  with the next command from that state.
\<close>

theorem download_or_bust_validated:
  "(download_or_bust h hash urls s = Some (status, s') \<longrightarrow>
      validate_hash h (destfile s') hash \<and>
      (\<forall>bytes. destfile s' = Some bytes \<longrightarrow> sha256sum h bytes = hash)) \<and>
   (run h (length (attempts s0)) cmd url (destfile s0) = (True, Some downloaded) \<and>
    sha256sum h downloaded \<noteq> hash \<longrightarrow>
      attempt h hash url cmd s0 =
        (HashMismatch, s0\<lparr>destfile := None, attempts := attempts s0 @ [(cmd, url)]\<rparr>) \<and>
      try_commands h hash url (cmd # cmds) s0 =
        try_commands h hash url cmds
          (s0\<lparr>destfile := None, attempts := attempts s0 @ [(cmd, url)]\<rparr>)) \<and>
   (attempt h hash url cmd s0 = (HashMismatch, s1) \<longrightarrow> destfile s1 = None)"
proof -
  have "validate_hash h (destfile s') hash" if "download_or_bust h hash urls s = Some (status, s')"
    using that by (auto simp: download_or_bust_def retry_returned split: if_splits)
  moreover have "sha256sum h bytes = hash"
    if "validate_hash h (destfile s') hash" "destfile s' = Some bytes" for bytes
    using that by (simp add: validate_hash_def)
  moreover have "attempt h hash url cmd s0 =
        (HashMismatch, s0\<lparr>destfile := None, attempts := attempts s0 @ [(cmd, url)]\<rparr>) \<and>
      try_commands h hash url (cmd # cmds) s0 =
        try_commands h hash url cmds
          (s0\<lparr>destfile := None, attempts := attempts s0 @ [(cmd, url)]\<rparr>)"
    if "run h (length (attempts s0)) cmd url (destfile s0) = (True, Some downloaded)"
       "sha256sum h downloaded \<noteq> hash"
    using that by (simp add: attempt_wrong)
  ultimately show ?thesis using attempt_HashMismatch by blast
qed

theorem download_or_bust_validated_witness:
  "download_or_bust mockHost ''H'' [''u1'', ''u2''] freshFetch =
     Some (0, \<lparr>destfile = Some ''right'',
               attempts = [(CurlCompressed, ''u1''), (WgetCompression, ''u1''), (Curl, ''u1''),
                           (Wget, ''u1''), (CurlCompressed, ''u2'')],
               sleeps = 0\<rparr>) \<and>
   sha256sum mockHost ''right'' = ''H'' \<and>
   download_or_bust mockHost ''H'' [''u1'', ''u2''] (freshFetch\<lparr>destfile := Some ''right''\<rparr>) =
     Some (1, freshFetch\<lparr>destfile := Some ''right''\<rparr>) \<and>
   run mockHost 0 Wget ''u1'' (Some ''stale'') = (True, Some ''wrong'') \<and>
   sha256sum mockHost ''wrong'' \<noteq> ''H'' \<and>
   attempt mockHost ''H'' ''u1'' Wget (freshFetch\<lparr>destfile := Some ''stale''\<rparr>) =
     (HashMismatch, \<lparr>destfile = None, attempts = [(Wget, ''u1'')], sleeps = 0\<rparr>) \<and>
   try_commands mockHost ''H'' ''u1'' [Wget] (freshFetch\<lparr>destfile := Some ''stale''\<rparr>) =
     (False, \<lparr>destfile = None, attempts = [(Wget, ''u1'')], sleeps = 0\<rparr>)"
proof -
  let ?final = "\<lparr>destfile = Some ''right'',
               attempts = [(CurlCompressed, ''u1''), (WgetCompression, ''u1''), (Curl, ''u1''),
                           (Wget, ''u1''), (CurlCompressed, ''u2'')],
               sleeps = 0\<rparr>"
  let ?stale = "freshFetch\<lparr>destfile := Some ''stale''\<rparr>"
  have d: "download_or_bust mockHost ''H'' [''u1'', ''u2''] freshFetch = Some (0, ?final)"
    by (simp add: download_or_bust_def freshFetch_def)
       (subst retry.simps,
        simp add: commands_def attempt_def validate_hash_def mockHost_def)
  have k: "download_or_bust mockHost ''H'' [''u1'', ''u2''] (freshFetch\<lparr>destfile := Some ''right''\<rparr>)
             = Some (1, freshFetch\<lparr>destfile := Some ''right''\<rparr>)"
    by (simp add: download_or_bust_def freshFetch_def validate_hash_def mockHost_def)
  have r: "run mockHost (length (attempts ?stale)) Wget ''u1'' (destfile ?stale)
             = (True, Some ''wrong'')"
    by (simp add: mockHost_def)
  have w: "sha256sum mockHost ''wrong'' \<noteq> ''H''"
    by (simp add: mockHost_def)
  have f: "destfile ?final = Some ''right''" by simp
  from download_or_bust_validated [where h = mockHost and hash = "''H''"
         and urls = "[''u1'', ''u2'']" and s = freshFetch and status = 0 and s' = ?final
         and ?s0.0 = ?stale and cmd = Wget and url = "''u1''" and downloaded = "''wrong''"
         and cmds = "[]"] d k r w f
  show ?thesis by (simp add: freshFetch_def mockHost_def)
qed

text \<open>
  C8, as the code has it. With the urls \<open>[u1, u2]\<close>, the expected digest \<open>H\<close>, every
  download from \<open>u1\<close> delivering bytes of another digest and every download from \<open>u2\<close>
  delivering bytes of digest \<open>H\<close>, and no file of digest \<open>H\<close> at the destination: the call
  returns, with status 0, in its first pass and without sleeping; the file at the
  destination is the one of digest \<open>H\<close>; and exactly five downloads were started. All four
  commands of the array are tried on \<open>u1\<close>, in their order (curl with compression, wget
  with compression, plain curl, plain wget); each of these downloads ends in a mismatch
  with the downloaded file removed, so that after the four the destination is empty and
  the function has not returned; then the first command succeeds on \<open>u2\<close>.
\<close>

theorem fetch_scenario:
  assumes "\<And>n cmd old. run h n cmd u1 old = (True, Some wrong)"
      and "\<And>n cmd old. run h n cmd u2 old = (True, Some right)"
      and "sha256sum h wrong \<noteq> H" and "sha256sum h right = H"
      and "\<And>bytes. destfile s = Some bytes \<Longrightarrow> sha256sum h bytes \<noteq> H"
  shows "download_or_bust h H [u1, u2] s =
           Some (0, s\<lparr>destfile := Some right,
                      attempts := attempts s @
                        [(CurlCompressed, u1), (WgetCompression, u1), (Curl, u1), (Wget, u1),
                         (CurlCompressed, u2)]\<rparr>) \<and>
         attempt h H u1 cmd s0 =
           (HashMismatch, s0\<lparr>destfile := None, attempts := attempts s0 @ [(cmd, u1)]\<rparr>) \<and>
         try_commands h H u1 commands s0 =
           (False, s0\<lparr>destfile := None,
                     attempts := attempts s0 @
                       [(CurlCompressed, u1), (WgetCompression, u1), (Curl, u1), (Wget, u1)]\<rparr>) \<and>
         attempt h H u2 cmd s0 =
           (Downloaded, s0\<lparr>destfile := Some right, attempts := attempts s0 @ [(cmd, u2)]\<rparr>)"
proof -
  have c1: "try_commands h H u1 commands s1 =
              (False, s1\<lparr>destfile := None,
                        attempts := attempts s1 @
                          [(CurlCompressed, u1), (WgetCompression, u1), (Curl, u1), (Wget, u1)]\<rparr>)"
    for s1
    by (subst try_commands_wrong [OF assms(1) assms(3)]) (simp add: commands_def)
  have c2: "try_commands h H u2 commands s1 =
              (True, s1\<lparr>destfile := Some right, attempts := attempts s1 @ [(CurlCompressed, u2)]\<rparr>)"
    for s1
    by (simp add: commands_def attempt_right [OF assms(2) assms(4)])
  have pass: "try_urls h H [u1, u2] s1 =
           (True, s1\<lparr>destfile := Some right,
                   attempts := attempts s1 @
                     [(CurlCompressed, u1), (WgetCompression, u1), (Curl, u1), (Wget, u1),
                      (CurlCompressed, u2)]\<rparr>)" for s1
    by (simp add: c1 c2)
  have loop: "retry h H [u1, u2] s1 =
           Some (s1\<lparr>destfile := Some right,
                   attempts := attempts s1 @
                     [(CurlCompressed, u1), (WgetCompression, u1), (Curl, u1), (Wget, u1),
                      (CurlCompressed, u2)]\<rparr>)" for s1
    by (subst retry.simps) (simp add: pass del: try_urls.simps)
  have "download_or_bust h H [u1, u2] s =
           Some (0, s\<lparr>destfile := Some right,
                      attempts := attempts s @
                        [(CurlCompressed, u1), (WgetCompression, u1), (Curl, u1), (Wget, u1),
                         (CurlCompressed, u2)]\<rparr>)"
  proof (cases "destfile s")
    case None
    then show ?thesis by (simp add: download_or_bust_def loop)
  next
    case (Some bytes)
    with assms(5) have "\<not> validate_hash h (destfile s) H"
      by (simp add: validate_hash_def)
    with Some show ?thesis by (simp add: download_or_bust_def loop)
  qed
  with c1 attempt_wrong [OF assms(1) assms(3)] attempt_right [OF assms(2) assms(4)]
  show ?thesis by simp
qed

theorem fetch_scenario_witness:
  "download_or_bust mockHost ''H'' [''u1'', ''u2''] freshFetch =
     Some (0, \<lparr>destfile = Some ''right'',
               attempts = [(CurlCompressed, ''u1''), (WgetCompression, ''u1''), (Curl, ''u1''),
                           (Wget, ''u1''), (CurlCompressed, ''u2'')],
               sleeps = 0\<rparr>) \<and>
   attempt mockHost ''H'' ''u1'' Curl (freshFetch\<lparr>destfile := Some ''stale''\<rparr>) =
     (HashMismatch, \<lparr>destfile = None, attempts = [(Curl, ''u1'')], sleeps = 0\<rparr>) \<and>
   try_commands mockHost ''H'' ''u1'' commands freshFetch =
     (False, \<lparr>destfile = None,
              attempts = [(CurlCompressed, ''u1''), (WgetCompression, ''u1''), (Curl, ''u1''),
                          (Wget, ''u1'')],
              sleeps = 0\<rparr>)"
proof -
  have 1: "run mockHost n cmd ''u1'' old = (True, Some ''wrong'')" for n cmd old
    by (simp add: mockHost_def)
  have 2: "run mockHost n cmd ''u2'' old = (True, Some ''right'')" for n cmd old
    by (simp add: mockHost_def)
  have 3: "sha256sum mockHost ''wrong'' \<noteq> ''H''" by (simp add: mockHost_def)
  have 4: "sha256sum mockHost ''right'' = ''H''" by (simp add: mockHost_def)
  have 5: "sha256sum mockHost bytes \<noteq> ''H''" if "destfile freshFetch = Some bytes" for bytes
    using that by (simp add: freshFetch_def)
  from fetch_scenario [where s = freshFetch and cmd = Curl
         and ?s0.0 = "freshFetch\<lparr>destfile := Some ''stale''\<rparr>", OF 1 2 3 4 5]
       fetch_scenario [where s = freshFetch and ?s0.0 = freshFetch, OF 1 2 3 4 5]
  show ?thesis by (simp add: freshFetch_def)
qed

text \<open>
  In that scenario the number of downloads started is five, not two.
\<close>

theorem two_attempts_counterexample:
  "map_option (length \<circ> attempts \<circ> snd)
     (download_or_bust mockHost ''H'' [''u1'', ''u2''] freshFetch) = Some 5"
  by (simp add: download_or_bust_def freshFetch_def)
     (subst retry.simps,
      simp add: commands_def attempt_def validate_hash_def mockHost_def)

end
